theory Spec2Isabelle
  imports Main
begin

section \<open>Data model\<close>

text \<open>
  Exceptions of the Python program are values. \<open>IndexError\<close> and \<open>RuntimeError\<close>
  carry their message, as \<open>utils.py\<close> constructs them; the other constructors are the
  errors of the library calls the program makes (\<open>int\<close>, tuple unpacking, \<open>PdfReader\<close>,
  \<open>Image.open\<close>).
\<close>

datatype error =
    ValueError
  | IndexError string
  | RuntimeError string
  | FileNotFoundError
  | PdfReadError
  | UnidentifiedImageError

text \<open>
  Pillow's image modes. \<open>Image.open\<close> yields an image of some mode; \<open>img.convert\<close>
  yields a new image of the requested mode. The raster itself is not computed: a
  converted image is the term \<open>Converted img m\<close>.
\<close>

datatype pil_mode =
    Mode_1 | Mode_L | Mode_P | Mode_RGB | Mode_RGBA | Mode_CMYK | Mode_YCbCr
  | Mode_LAB | Mode_HSV | Mode_I | Mode_F | Mode_LA | Mode_PA | Mode_RGBX
  | Mode_RGBa | Mode_La

datatype image = Loaded pil_mode string | Converted image pil_mode



text \<open>
  A page object is either a page of an existing PDF (its content) or the page that
  \<open>img.save(path, "PDF", resolution=r)\<close> makes of an image.
\<close>

datatype page = Page string | ImagePage image nat

datatype content = Pdf "page list" | Img image | Other string

text \<open>
  The world the program acts on: the file system, as a map from path to file, and the
  messages queued by \<open>flash\<close> (message and category).
\<close>

record world =
  files :: "string \<rightharpoonup> content"
  flashes :: "(string \<times> string) list"

definition write_file :: "world \<Rightarrow> string \<Rightarrow> content \<Rightarrow> world" where
  "write_file w path f = w\<lparr>files := (files w)(path \<mapsto> f)\<rparr>"

definition exists :: "world \<Rightarrow> string \<Rightarrow> bool" where
  "exists w path = (files w path \<noteq> None)"

section \<open>PDF assembler (\<open>utils.py\<close>)\<close>

text \<open>\<open>PdfReader(fp)\<close>: the pages of the PDF stored at \<open>fp\<close>, or an error.\<close>

definition PdfReader :: "world \<Rightarrow> string \<Rightarrow> error + page list" where
  "PdfReader w fp =
     (case files w fp of
        None \<Rightarrow> Inl FileNotFoundError
      | Some (Pdf ps) \<Rightarrow> Inr ps
      | Some _ \<Rightarrow> Inl PdfReadError)"

text \<open>\<open>writer.add_page(page)\<close>: the writer is the list of pages added so far.\<close>

definition add_page :: "page list \<Rightarrow> page \<Rightarrow> page list" where
  "add_page writer pg = writer @ [pg]"

text \<open>
  \<open>merge_pdfs\<close>: the outer loop over \<open>file_paths\<close>; the inner loop over
  \<open>reader.pages\<close> is the fold of \<open>add_page\<close>.
\<close>

fun merge_loop :: "world \<Rightarrow> string list \<Rightarrow> page list \<Rightarrow> error + page list" where
  "merge_loop w [] writer = Inr writer"
| "merge_loop w (fp # fps) writer =
     (case PdfReader w fp of
        Inl e \<Rightarrow> Inl e
      | Inr pages \<Rightarrow> merge_loop w fps (foldl add_page writer pages))"

definition merge_pdfs :: "world \<Rightarrow> string list \<Rightarrow> string \<Rightarrow> (error + unit) \<times> world" where
  "merge_pdfs w file_paths out_path =
     (case merge_loop w file_paths [] of
        Inl e \<Rightarrow> (Inl e, w)
      | Inr writer \<Rightarrow> (Inr (), write_file w out_path (Pdf writer)))"

text \<open>
  \<open>split_pdf\<close>: the loop over \<open>pages\<close> raises at the first index out of range; the
  output file is opened only after the loop.
\<close>

fun split_loop :: "page list \<Rightarrow> int list \<Rightarrow> page list \<Rightarrow> error + page list" where
  "split_loop reader [] writer = Inr writer"
| "split_loop reader (p # ps) writer =
     (let idx = p - 1 in
      if idx < 0 \<or> idx \<ge> int (length reader)
      then Inl (IndexError ''Page index out of range'')
      else split_loop reader ps (add_page writer (reader ! nat idx)))"

definition split_pdf :: "world \<Rightarrow> string \<Rightarrow> int list \<Rightarrow> string \<Rightarrow> (error + unit) \<times> world" where
  "split_pdf w pdf_path pages out_path =
     (case PdfReader w pdf_path of
        Inl e \<Rightarrow> (Inl e, w)
      | Inr reader \<Rightarrow>
          (case split_loop reader pages [] of
             Inl e \<Rightarrow> (Inl e, w)
           | Inr writer \<Rightarrow> (Inr (), write_file w out_path (Pdf writer))))"

section \<open>Strings and \<open>int()\<close>\<close>

text \<open>
  Strings are ASCII texts. \<open>is_space\<close> is \<open>str.isspace\<close> on ASCII: tab, line feed,
  vertical tab, form feed, carriage return, the four separators 0x1C..0x1F and the
  space. \<open>strip\<close> is \<open>str.strip()\<close>.
\<close>

definition is_space :: "char \<Rightarrow> bool" where
  "is_space c = (let n = (of_char c :: nat) in (9 \<le> n \<and> n \<le> 13) \<or> (28 \<le> n \<and> n \<le> 32))"

definition strip :: "string \<Rightarrow> string" where
  "strip s = rev (dropWhile is_space (rev (dropWhile is_space s)))"

text \<open>\<open>s.split(sep)\<close> for a one-character separator: never the empty list.\<close>

fun split_on :: "char \<Rightarrow> string \<Rightarrow> string list" where
  "split_on sep [] = [[]]"
| "split_on sep (c # cs) =
     (if c = sep then [] # split_on sep cs
      else (case split_on sep cs of
              [] \<Rightarrow> [[c]]
            | piece # pieces \<Rightarrow> (c # piece) # pieces))"

definition is_digit :: "char \<Rightarrow> bool" where
  "is_digit c = (let n = (of_char c :: nat) in 48 \<le> n \<and> n \<le> 57)"

definition digit_val :: "char \<Rightarrow> int" where
  "digit_val c = int (of_char c) - 48"

text \<open>
  The digits of an \<open>int()\<close> literal in base 10: at least one digit, and single
  underscores only between digits. \<open>after_digit\<close> says that the previous character
  was a digit.
\<close>

fun int_digits :: "int \<Rightarrow> bool \<Rightarrow> string \<Rightarrow> int option" where
  "int_digits acc after_digit [] = (if after_digit then Some acc else None)"
| "int_digits acc after_digit (c # cs) =
     (if is_digit c then int_digits (10 * acc + digit_val c) True cs
      else if c = CHR ''_'' \<and> after_digit then int_digits acc False cs
      else None)"

text \<open>
  \<open>int(s)\<close> on a string: surrounding whitespace is dropped, one sign is allowed, the
  rest must be digits; anything else raises \<open>ValueError\<close>. Python's integers are
  unbounded, and so is \<open>int\<close> here.
\<close>

definition py_int :: "string \<Rightarrow> error + int" where
  "py_int s =
     (let t = strip s;
          (negative, ds) =
            (case t of
               [] \<Rightarrow> (False, t)
             | c # cs \<Rightarrow> if c = CHR ''-'' then (True, cs)
                         else if c = CHR ''+'' then (False, cs)
                         else (False, t))
      in case int_digits 0 False ds of
           None \<Rightarrow> Inl ValueError
         | Some n \<Rightarrow> Inr (if negative then - n else n))"

text \<open>\<open>list(range(a, b))\<close>.\<close>

definition py_range :: "int \<Rightarrow> int \<Rightarrow> int list" where
  "py_range a b = [a..b - 1]"

section \<open>\<open>os.path\<close> (POSIX flavour)\<close>

text \<open>\<open>s.rfind(c)\<close>: the index of the last occurrence of \<open>c\<close>, or \<open>-1\<close>.\<close>

definition rfind :: "char \<Rightarrow> string \<Rightarrow> int" where
  "rfind c s =
     (if c \<in> set s
      then int (length s) - 1 - int (length (takeWhile (\<lambda>x. x \<noteq> c) (rev s)))
      else - 1)"

text \<open>
  \<open>genericpath._splitext(p, sep, altsep, extsep)\<close> with \<open>extsep = "."\<close>. The loop skips
  the leading dots of the last path component; it returns at the first character that
  is not a dot, and falls through (\<open>None\<close>) when there is none before \<open>dotIndex\<close>.
\<close>

function splitext_loop :: "string \<Rightarrow> nat \<Rightarrow> nat \<Rightarrow> (string \<times> string) option" where
  "splitext_loop p dotIndex filenameIndex =
     (if filenameIndex < dotIndex
      then (if take 1 (drop filenameIndex p) \<noteq> ''.''
            then Some (take dotIndex p, drop dotIndex p)
            else splitext_loop p dotIndex (filenameIndex + 1))
      else None)"
  by pat_completeness auto
termination
  by (relation "measure (\<lambda>(p, dotIndex, filenameIndex). dotIndex - filenameIndex)") auto

declare splitext_loop.simps [simp del]

definition splitext_generic :: "string \<Rightarrow> char \<Rightarrow> char option \<Rightarrow> string \<times> string" where
  "splitext_generic p sep altsep =
     (let sepIndex = (case altsep of
                        None \<Rightarrow> rfind sep p
                      | Some a \<Rightarrow> max (rfind sep p) (rfind a p));
          dotIndex = rfind CHR ''.'' p
      in if dotIndex > sepIndex
         then (case splitext_loop p (nat dotIndex) (nat (sepIndex + 1)) of
                 Some r \<Rightarrow> r
               | None \<Rightarrow> (p, []))
         else (p, []))"

definition splitext :: "string \<Rightarrow> string \<times> string" where
  "splitext p = splitext_generic p CHR ''/'' None"


text \<open>\<open>os.path.join(a, b)\<close> with two arguments.\<close>

definition join :: "string \<Rightarrow> string \<Rightarrow> string" where
  "join a b =
     (if b \<noteq> [] \<and> hd b = CHR ''/'' then b
      else if a = [] \<or> last a = CHR ''/'' then a @ b
      else a @ ''/'' @ b)"

section \<open>Storage naming and format converter (\<open>utils.py\<close>)\<close>

text \<open>
  \<open>random_filename\<close>: \<open>token\<close> is the value of \<open>uuid.uuid4().hex\<close> drawn by the call.
\<close>

definition random_filename :: "string \<Rightarrow> string \<Rightarrow> string" where
  "random_filename token filename = (let ext = snd (splitext filename) in token @ ext)"








fun has_palette :: "pil_mode \<Rightarrow> bool" where
  "has_palette Mode_P = True"
| "has_palette Mode_PA = True"
| "has_palette _ = False"

section \<open>The split route (\<open>app.py\<close>)\<close>

datatype http_method = GET | POST

text \<open>
  An uploaded file (\<open>FileStorage\<close>): the client's file name and the content. The
  request carries the method, whether the session holds \<open>user_id\<close>, the upload under
  \<open>file\<close> and the form field \<open>pages\<close>.
\<close>

record upload =
  filename :: string
  body :: content

record request =
  http_method :: http_method
  user_in_session :: bool
  file_field :: "upload option"
  pages_field :: "string option"

text \<open>
  What a view function returns; an exception that leaves the view function unhandled is
  \<open>Unhandled\<close> (the server answers 500).
\<close>

datatype response =
    Render string
  | Redirect string
  | SendFile string
  | Unhandled error

record config =
  UPLOAD_DIR :: string
  CONVERTED_DIR :: string

definition flash :: "world \<Rightarrow> string \<Rightarrow> string \<Rightarrow> world" where
  "flash w message category = w\<lparr>flashes := flashes w @ [(message, category)]\<rparr>"

text \<open>
  \<open>start, end = map(int, pieces)\<close>: the two targets take the first two items of the
  lazy \<open>map\<close>; a third item is then requested, so \<open>int\<close> runs on a third piece before
  the unpacking fails. Every failure here is a \<open>ValueError\<close>.
\<close>

fun unpack_two_ints :: "string list \<Rightarrow> error + int \<times> int" where
  "unpack_two_ints [] = Inl ValueError"
| "unpack_two_ints [a] = (case py_int a of Inl e \<Rightarrow> Inl e | Inr x \<Rightarrow> Inl ValueError)"
| "unpack_two_ints [a, b] =
     (case py_int a of
        Inl e \<Rightarrow> Inl e
      | Inr x \<Rightarrow> (case py_int b of Inl e \<Rightarrow> Inl e | Inr y \<Rightarrow> Inr (x, y)))"
| "unpack_two_ints (a # b # c # rest) =
     (case py_int a of
        Inl e \<Rightarrow> Inl e
      | Inr x \<Rightarrow>
          (case py_int b of
             Inl e \<Rightarrow> Inl e
           | Inr y \<Rightarrow> (case py_int c of Inl e \<Rightarrow> Inl e | Inr z \<Rightarrow> Inl ValueError)))"

text \<open>The body of the loop over \<open>pages.split(",")\<close>: the numbers one part appends.\<close>

definition parse_part :: "string \<Rightarrow> error + int list" where
  "parse_part part0 =
     (let part = strip part0 in
      if CHR ''-'' \<in> set part
      then (case unpack_two_ints (split_on CHR ''-'' part) of
              Inl e \<Rightarrow> Inl e
            | Inr (start, end) \<Rightarrow> Inr (py_range start (end + 1)))
      else (case py_int part of
              Inl e \<Rightarrow> Inl e
            | Inr n \<Rightarrow> Inr [n]))"

fun parse_loop :: "string list \<Rightarrow> int list \<Rightarrow> error + int list" where
  "parse_loop [] page_list = Inr page_list"
| "parse_loop (part # parts) page_list =
     (case parse_part part of
        Inl e \<Rightarrow> Inl e
      | Inr ns \<Rightarrow> parse_loop parts (page_list @ ns))"

definition parse_pages :: "string \<Rightarrow> error + int list" where
  "parse_pages pages = parse_loop (split_on CHR '','' pages) []"

text \<open>
  The view function \<open>split\<close>. \<open>token1\<close> and \<open>token2\<close> are the values of the two
  \<open>uuid4\<close> draws, in order. An upload is falsy when its file name is empty.
\<close>

definition split_route ::
  "config \<Rightarrow> string \<Rightarrow> string \<Rightarrow> request \<Rightarrow> world \<Rightarrow> response \<times> world" where
  "split_route cfg token1 token2 req w =
     (if http_method req = POST then
        (case (file_field req, pages_field req) of
           (Some pdf, Some pages) \<Rightarrow>
             if filename pdf = [] \<or> pages = []
             then (Redirect ''split'', flash w ''Upload PDF and enter pages!'' ''danger'')
             else
               (let fname = random_filename token1 (filename pdf);
                    path = join (UPLOAD_DIR cfg) fname;
                    w1 = write_file w path (body pdf)
                in case parse_pages pages of
                     Inl e \<Rightarrow> (Unhandled e, w1)
                   | Inr page_list \<Rightarrow>
                       (let output_path =
                              join (CONVERTED_DIR cfg) (random_filename token2 ''split.pdf'')
                        in case split_pdf w1 path page_list output_path of
                             (Inl e, w2) \<Rightarrow> (Unhandled e, w2)
                           | (Inr u, w2) \<Rightarrow> (SendFile output_path, w2)))
         | _ \<Rightarrow> (Redirect ''split'', flash w ''Upload PDF and enter pages!'' ''danger''))
      else (Render ''split.html'', w))"

text \<open>The decorator \<open>login_required\<close> and the decorated view.\<close>

definition login_required ::
  "(request \<Rightarrow> world \<Rightarrow> response \<times> world) \<Rightarrow> request \<Rightarrow> world \<Rightarrow> response \<times> world" where
  "login_required fn req w = (if \<not> user_in_session req then (Redirect ''login'', w) else fn req w)"

definition split_view ::
  "config \<Rightarrow> string \<Rightarrow> string \<Rightarrow> request \<Rightarrow> world \<Rightarrow> response \<times> world" where
  "split_view cfg token1 token2 = login_required (split_route cfg token1 token2)"

section \<open>The pages field as the specification describes it\<close>

text \<open>
  A pages string in the format of the specification is a comma-separated list of
  tokens: a single number, or a range of two numbers joined by a hyphen. A number is a
  non-empty string of decimal digits; \<open>dec_val\<close> is its value.
\<close>

datatype page_token = Single string | Range string string

definition is_number :: "string \<Rightarrow> bool" where
  "is_number s = (s \<noteq> [] \<and> list_all is_digit s)"

definition dec_val :: "string \<Rightarrow> int" where
  "dec_val s = foldl (\<lambda>acc c. 10 * acc + digit_val c) 0 s"

fun token_ok :: "page_token \<Rightarrow> bool" where
  "token_ok (Single a) = is_number a"
| "token_ok (Range a b) = (is_number a \<and> is_number b)"

fun token_text :: "page_token \<Rightarrow> string" where
  "token_text (Single a) = a"
| "token_text (Range a b) = a @ ''-'' @ b"

text \<open>A single number contributes itself, a range every number from \<open>a\<close> to \<open>b\<close>.\<close>

fun token_pages :: "page_token \<Rightarrow> int list" where
  "token_pages (Single a) = [dec_val a]"
| "token_pages (Range a b) = [dec_val a..dec_val b]"

fun join_comma :: "string list \<Rightarrow> string" where
  "join_comma [] = []"
| "join_comma [t] = t"
| "join_comma (t # u # ts) = t @ '','' @ join_comma (u # ts)"

definition pages_text :: "page_token list \<Rightarrow> string" where
  "pages_text toks = join_comma (map token_text toks)"

text \<open>A range whose first number is greater than its second.\<close>

fun descending :: "page_token \<Rightarrow> bool" where
  "descending (Single a) = False"
| "descending (Range a b) = (dec_val b < dec_val a)"

text \<open>
  Parts of a pages string on which the parse fails: a part without hyphen that
  \<open>int()\<close> rejects (the empty part is one), a part with two hyphens or more, and a part
  with a leading minus sign.
\<close>

definition bad_part :: "string \<Rightarrow> bool" where
  "bad_part part =
     (let p = strip part in
      (CHR ''-'' \<notin> set p \<and> py_int p = Inl ValueError)
      \<or> 2 \<le> count_list p CHR ''-''
      \<or> (p \<noteq> [] \<and> hd p = CHR ''-''))"

text \<open>A POST request of a logged-in user with an upload and a pages field.\<close>

definition split_request :: "upload \<Rightarrow> string \<Rightarrow> request" where
  "split_request pdf pages =
     \<lparr>http_method = POST, user_in_session = True, file_field = Some pdf,
      pages_field = Some pages\<rparr>"

section \<open>Example inputs\<close>

definition ex_src :: "page list" where
  "ex_src = [Page ''p1'', Page ''p2'', Page ''p3'', Page ''p4'', Page ''p5'']"

definition ex_world :: world where
  "ex_world = \<lparr>files = [''in.pdf'' \<mapsto> Pdf ex_src, ''more.pdf'' \<mapsto> Pdf [Page ''q1'', Page ''q2'']],
               flashes = []\<rparr>"





definition ex_cfg :: config where
  "ex_cfg = \<lparr>UPLOAD_DIR = ''uploads'', CONVERTED_DIR = ''converted''\<rparr>"

definition ex_upload :: upload where
  "ex_upload = \<lparr>filename = ''report.pdf'', body = Pdf ex_src\<rparr>"

definition ex_empty_world :: world where
  "ex_empty_world = \<lparr>files = Map.empty, flashes = []\<rparr>"

section \<open>Properties of the PDF assembler\<close>

lemma foldl_add_page: "foldl add_page writer pages = writer @ pages"
  by (induction pages arbitrary: writer) (simp_all add: add_page_def)

lemma split_loop_in_range:
  "\<forall>p \<in> set pages. 1 \<le> p \<and> p \<le> int (length reader) \<Longrightarrow>
   split_loop reader pages writer = Inr (writer @ map (\<lambda>p. reader ! nat (p - 1)) pages)"
  by (induction pages arbitrary: writer) (simp_all add: add_page_def Let_def)

lemma split_loop_out_of_range:
  "\<exists>p \<in> set pages. p < 1 \<or> int (length reader) < p \<Longrightarrow>
   split_loop reader pages writer = Inl (IndexError ''Page index out of range'')"
  by (induction pages arbitrary: writer) (auto simp add: Let_def)

lemma merge_loop_readable:
  "list_all2 (\<lambda>fp doc. files w fp = Some (Pdf doc)) file_paths docs \<Longrightarrow>
   merge_loop w file_paths writer = Inr (writer @ concat docs)"
proof (induction file_paths arbitrary: docs writer)
  case Nil
  then show ?case by simp
next
  case (Cons fp fps)
  then obtain d ds where docs: "docs = d # ds" and d: "files w fp = Some (Pdf d)"
    and ds: "list_all2 (\<lambda>fp doc. files w fp = Some (Pdf doc)) fps ds"
    by (auto simp add: list_all2_Cons1)
  show ?case
    using Cons.IH [OF ds] d by (simp add: docs PdfReader_def foldl_add_page)
qed

text \<open>
  C1. For a source PDF and a list of 1-based page numbers all within range,
  \<open>split_pdf\<close> succeeds and writes an output document that has as many pages as the
  list has entries and whose N-th page is the source page named by the N-th entry:
  the caller's order and duplicates are kept, nothing is sorted.
\<close>

theorem split_pdf_pages_in_order:
  assumes "files w pdf_path = Some (Pdf src)"
    and "\<forall>p \<in> set pages. 1 \<le> p \<and> p \<le> int (length src)"
  shows "\<exists>out. split_pdf w pdf_path pages out_path = (Inr (), write_file w out_path (Pdf out))
           \<and> length out = length pages
           \<and> (\<forall>n < length pages. out ! n = src ! nat (pages ! n - 1))"
proof -
  let ?out = "map (\<lambda>p. src ! nat (p - 1)) pages"
  have "split_loop src pages [] = Inr ?out"
    using split_loop_in_range [OF assms(2), of "[]"] by simp
  then have "split_pdf w pdf_path pages out_path = (Inr (), write_file w out_path (Pdf ?out))"
    using assms(1) by (simp add: split_pdf_def PdfReader_def)
  then show ?thesis by auto
qed

theorem split_pdf_pages_in_order_witness:
  "split_pdf ex_world ''in.pdf'' [3, 1, 2] ''out.pdf''
     = (Inr (), write_file ex_world ''out.pdf'' (Pdf [Page ''p3'', Page ''p1'', Page ''p2'']))"
proof -
  have h1: "files ex_world ''in.pdf'' = Some (Pdf ex_src)"
    by (simp add: ex_world_def)
  have h2: "\<forall>p \<in> set [3, 1, 2 :: int]. 1 \<le> p \<and> p \<le> int (length ex_src)"
    by (simp add: ex_src_def)
  obtain out where run: "split_pdf ex_world ''in.pdf'' [3, 1, 2] ''out.pdf''
        = (Inr (), write_file ex_world ''out.pdf'' (Pdf out))"
    and len: "length out = 3"
    and nth: "\<forall>n < 3. out ! n = ex_src ! nat ([3, 1, 2] ! n - 1)"
    using split_pdf_pages_in_order [OF h1 h2, of "''out.pdf''"] by auto
  have "out ! 0 = Page ''p3''" "out ! 1 = Page ''p1''" "out ! 2 = Page ''p2''"
    using nth by (simp_all add: ex_src_def)
  with len have "out = [Page ''p3'', Page ''p1'', Page ''p2'']"
    by (simp add: list_eq_iff_nth_eq less_Suc_eq numeral_3_eq_3 numeral_2_eq_2)
  with run show ?thesis by simp
qed

text \<open>
  C2. For an ordered list of readable input PDFs, \<open>merge_pdfs\<close> succeeds and writes
  the concatenation of the documents: all pages of the first in their order, then all
  pages of the second, and so on; the page count is the sum of the page counts.
\<close>

theorem merge_pdfs_concatenates:
  assumes "list_all2 (\<lambda>fp doc. files w fp = Some (Pdf doc)) file_paths docs"
  shows "merge_pdfs w file_paths out_path = (Inr (), write_file w out_path (Pdf (concat docs)))
           \<and> length (concat docs) = sum_list (map length docs)"
  using merge_loop_readable [OF assms, of "[]"]
  by (simp add: merge_pdfs_def length_concat)

theorem merge_pdfs_concatenates_witness:
  "merge_pdfs ex_world [''more.pdf'', ''in.pdf'', ''more.pdf''] ''out.pdf''
     = (Inr (), write_file ex_world ''out.pdf''
          (Pdf [Page ''q1'', Page ''q2'', Page ''p1'', Page ''p2'', Page ''p3'', Page ''p4'',
                Page ''p5'', Page ''q1'', Page ''q2'']))
   \<and> length (concat [[Page ''q1'', Page ''q2''], ex_src, [Page ''q1'', Page ''q2'']]) = 2 + 5 + 2"
proof -
  have h: "list_all2 (\<lambda>fp doc. files ex_world fp = Some (Pdf doc))
             [''more.pdf'', ''in.pdf'', ''more.pdf'']
             [[Page ''q1'', Page ''q2''], ex_src, [Page ''q1'', Page ''q2'']]"
    by (simp add: ex_world_def)
  show ?thesis
    using merge_pdfs_concatenates [OF h, of "''out.pdf''"] by (simp add: ex_src_def)
qed

text \<open>
  C3. For a source PDF and a page list with at least one page number below 1 or above
  the source's page count, \<open>split_pdf\<close> raises the out-of-range \<open>IndexError\<close> and
  leaves the world as it was: nothing is written at the output path.
\<close>

theorem split_pdf_out_of_range:
  assumes "files w pdf_path = Some (Pdf src)"
    and "\<exists>p \<in> set pages. p < 1 \<or> int (length src) < p"
  shows "split_pdf w pdf_path pages out_path = (Inl (IndexError ''Page index out of range''), w)"
  using assms(1) split_loop_out_of_range [OF assms(2), of "[]"]
  by (simp add: split_pdf_def PdfReader_def)

theorem split_pdf_out_of_range_witness:
  "split_pdf ex_world ''in.pdf'' [2, 0, 3] ''out.pdf''
       = (Inl (IndexError ''Page index out of range''), ex_world)
   \<and> split_pdf ex_world ''in.pdf'' [1, 6] ''out.pdf''
       = (Inl (IndexError ''Page index out of range''), ex_world)
   \<and> files ex_world ''out.pdf'' = None"
proof -
  have h1: "files ex_world ''in.pdf'' = Some (Pdf ex_src)"
    by (simp add: ex_world_def)
  have h2: "\<exists>p \<in> set [2, 0, 3 :: int]. p < 1 \<or> int (length ex_src) < p"
    by simp
  have h3: "\<exists>p \<in> set [1, 6 :: int]. p < 1 \<or> int (length ex_src) < p"
    by (simp add: ex_src_def)
  have "files ex_world ''out.pdf'' = None"
    by (simp add: ex_world_def)
  then show ?thesis
    using split_pdf_out_of_range [OF h1 h2, of "''out.pdf''"]
      split_pdf_out_of_range [OF h1 h3, of "''out.pdf''"] by simp
qed

section \<open>Properties of \<open>os.path.splitext\<close> and \<open>random_filename\<close>\<close>











section \<open>Properties of the format converter\<close>






section \<open>Properties of the pages parser\<close>

lemma digit_not_space: "is_digit c \<Longrightarrow> \<not> is_space c"
  by (simp add: is_digit_def is_space_def Let_def)

lemma digit_not_special:
  "is_digit c \<Longrightarrow> c \<noteq> CHR ''-'' \<and> c \<noteq> CHR ''+'' \<and> c \<noteq> CHR '','' \<and> c \<noteq> CHR ''_''"
  by (auto simp add: is_digit_def Let_def)

lemma strip_id: "s \<noteq> [] \<Longrightarrow> \<not> is_space (hd s) \<Longrightarrow> \<not> is_space (last s) \<Longrightarrow> strip s = s"
proof -
  assume a: "s \<noteq> []" "\<not> is_space (hd s)" "\<not> is_space (last s)"
  then have 1: "dropWhile is_space s = s"
    by (cases s) simp_all
  from a have "rev s \<noteq> []" "\<not> is_space (hd (rev s))"
    by (simp_all add: hd_rev)
  then have "dropWhile is_space (rev s) = rev s"
    by (cases "rev s") simp_all
  with 1 show ?thesis by (simp add: strip_def)
qed

lemma int_digits_all_digits:
  "list_all is_digit ds \<Longrightarrow> ds \<noteq> [] \<or> p \<Longrightarrow>
   int_digits acc p ds = Some (foldl (\<lambda>acc c. 10 * acc + digit_val c) acc ds)"
  by (induction ds arbitrary: acc p) simp_all

lemma number_facts:
  assumes "is_number s"
  shows "s \<noteq> []" "is_digit (hd s)" "is_digit (last s)" "list_all is_digit s"
    "CHR ''-'' \<notin> set s" "CHR '','' \<notin> set s"
  using assms digit_not_special
  by (auto simp add: is_number_def list_all_iff)

lemma strip_number: "is_number s \<Longrightarrow> strip s = s"
  by (simp add: strip_id number_facts digit_not_space)

lemma py_int_number: "is_number s \<Longrightarrow> py_int s = Inr (dec_val s)"
proof -
  assume n: "is_number s"
  then obtain c cs where s: "s = c # cs" by (cases s) (simp_all add: is_number_def)
  with n have c: "c \<noteq> CHR ''-''" "c \<noteq> CHR ''+''"
    using number_facts(2) [OF n] digit_not_special by auto
  have "int_digits 0 False s = Some (dec_val s)"
    using int_digits_all_digits [of s False 0] number_facts [OF n]
    by (simp add: dec_val_def)
  then show ?thesis
    using c s by (simp add: py_int_def strip_number [OF n, unfolded s] del: int_digits.simps)
qed

lemma split_on_nonempty: "split_on sep s \<noteq> []"
  by (induction s) (auto split: list.splits)

lemma split_on_absent: "sep \<notin> set s \<Longrightarrow> split_on sep s = [s]"
  by (induction s) auto

lemma split_on_first: "sep \<notin> set a \<Longrightarrow> split_on sep (a @ sep # b) = a # split_on sep b"
  by (induction a) auto

lemma length_split_on: "length (split_on sep s) = Suc (count_list s sep)"
  by (induction s) (auto split: list.splits simp add: split_on_nonempty)

lemma py_int_error: "py_int s = Inl e \<Longrightarrow> e = ValueError"
  by (auto simp add: py_int_def Let_def split: option.splits prod.splits)

lemma unpack_two_ints_error: "unpack_two_ints xs = Inl e \<Longrightarrow> e = ValueError"
  by (induction xs rule: unpack_two_ints.induct)
     (auto split: sum.splits dest: py_int_error)

lemma parse_part_error: "parse_part part = Inl e \<Longrightarrow> e = ValueError"
  by (auto simp add: parse_part_def Let_def split: sum.splits if_splits
      dest: py_int_error unpack_two_ints_error)

lemma parse_loop_error: "parse_loop parts acc = Inl e \<Longrightarrow> e = ValueError"
  by (induction parts arbitrary: acc) (auto split: sum.splits dest: parse_part_error)

lemma parse_loop_good:
  "\<forall>part \<in> set parts. parse_part part = Inr (f part) \<Longrightarrow>
   parse_loop parts acc = Inr (acc @ concat (map f parts))"
  by (induction parts arbitrary: acc) simp_all

lemma parse_loop_bad:
  "part \<in> set parts \<Longrightarrow> parse_part part = Inl e \<Longrightarrow> parse_loop parts acc = Inl ValueError"
proof (induction parts arbitrary: acc)
  case Nil
  then show ?case by simp
next
  case (Cons a parts)
  then show ?case
    by (cases "parse_part a") (auto dest: parse_part_error)
qed


lemma parse_part_token: "token_ok t \<Longrightarrow> parse_part (token_text t) = Inr (token_pages t)"
proof (cases t)
  case (Single a)
  assume "token_ok t"
  with Single have n: "is_number a" by simp
  show ?thesis
    using number_facts(5) [OF n]
    by (simp add: Single parse_part_def strip_number [OF n] py_int_number [OF n])
next
  case (Range a b)
  assume "token_ok t"
  with Range have a: "is_number a" and b: "is_number b" by simp_all
  have ne: "a @ CHR ''-'' # b \<noteq> []" by simp
  have h: "hd (a @ CHR ''-'' # b) = hd a" and l: "last (a @ CHR ''-'' # b) = last b"
    using number_facts(1) [OF a] number_facts(1) [OF b] by simp_all
  have "\<not> is_space (hd (a @ CHR ''-'' # b))" "\<not> is_space (last (a @ CHR ''-'' # b))"
    using number_facts(2) [OF a] number_facts(3) [OF b]
    by (simp_all only: h l digit_not_space not_False_eq_True)
  then have st: "strip (a @ CHR ''-'' # b) = a @ CHR ''-'' # b"
    using strip_id [OF ne] by blast
  have sp: "split_on CHR ''-'' (a @ CHR ''-'' # b) = [a, b]"
    using number_facts(5) [OF a] number_facts(5) [OF b]
    by (simp add: split_on_first split_on_absent)
  show ?thesis
    by (simp add: Range parse_part_def st sp py_int_number [OF a] py_int_number [OF b]
        py_range_def)
qed

lemma token_text_no_comma: "token_ok t \<Longrightarrow> CHR '','' \<notin> set (token_text t)"
  by (cases t) (auto dest: number_facts(6))

lemma token_text_nonempty: "token_ok t \<Longrightarrow> token_text t \<noteq> []"
  by (cases t) (auto dest: number_facts(1))

lemma split_on_join_comma:
  "ts \<noteq> [] \<Longrightarrow> \<forall>t \<in> set ts. CHR '','' \<notin> set t \<Longrightarrow> split_on CHR '','' (join_comma ts) = ts"
proof (induction ts rule: join_comma.induct)
  case 1
  then show ?case by simp
next
  case (2 t)
  then show ?case by (simp add: split_on_absent)
next
  case (3 t u ts)
  then show ?case by (simp add: split_on_first)
qed

lemma join_comma_nonempty: "ts \<noteq> [] \<Longrightarrow> \<forall>t \<in> set ts. t \<noteq> [] \<Longrightarrow> join_comma ts \<noteq> []"
  by (induction ts rule: join_comma.induct) simp_all

lemma pages_text_nonempty: "toks \<noteq> [] \<Longrightarrow> list_all token_ok toks \<Longrightarrow> pages_text toks \<noteq> []"
  by (simp add: pages_text_def join_comma_nonempty token_text_nonempty list_all_iff)

lemma parse_pages_tokens:
  assumes "toks \<noteq> []" and "list_all token_ok toks"
  shows "parse_pages (pages_text toks) = Inr (concat (map token_pages toks))"
proof -
  have sp: "split_on CHR '','' (pages_text toks) = map token_text toks"
    using assms
    by (simp add: pages_text_def split_on_join_comma token_text_no_comma list_all_iff)
  have "\<forall>part \<in> set (map token_text toks).
          parse_part part = Inr ((\<lambda>part. case parse_part part of Inr ns \<Rightarrow> ns | Inl e \<Rightarrow> []) part)"
    using assms(2) by (auto simp add: list_all_iff parse_part_token)
  from parse_loop_good [OF this, of "[]"]
  have "parse_loop (map token_text toks) []
          = Inr (concat (map (\<lambda>t. case parse_part (token_text t) of Inr ns \<Rightarrow> ns | Inl e \<Rightarrow> []) toks))"
    by (simp add: comp_def)
  moreover have "map (\<lambda>t. case parse_part (token_text t) of Inr ns \<Rightarrow> ns | Inl e \<Rightarrow> []) toks
                   = map token_pages toks"
    using assms(2) by (auto simp add: list_all_iff parse_part_token)
  ultimately show ?thesis by (simp add: parse_pages_def sp)
qed

lemma split_view_post:
  assumes "filename pdf \<noteq> []" and "pages \<noteq> []"
  shows "split_view cfg token1 token2 (split_request pdf pages) w =
     (case parse_pages pages of
        Inl e \<Rightarrow>
          (Unhandled e,
           write_file w (join (UPLOAD_DIR cfg) (random_filename token1 (filename pdf))) (body pdf))
      | Inr page_list \<Rightarrow>
          (case split_pdf
                  (write_file w (join (UPLOAD_DIR cfg) (random_filename token1 (filename pdf)))
                     (body pdf))
                  (join (UPLOAD_DIR cfg) (random_filename token1 (filename pdf))) page_list
                  (join (CONVERTED_DIR cfg) (random_filename token2 ''split.pdf'')) of
             (Inl e, w2) \<Rightarrow> (Unhandled e, w2)
           | (Inr u, w2) \<Rightarrow>
               (SendFile (join (CONVERTED_DIR cfg) (random_filename token2 ''split.pdf'')), w2)))"
  using assms
  by (simp add: split_view_def login_required_def split_route_def split_request_def Let_def
      split: sum.splits)

lemma parse_pages_empty: "parse_pages [] = Inl ValueError"
  by (simp add: parse_pages_def parse_part_def strip_def py_int_def)

lemma unpack_two_ints_many: "3 \<le> length xs \<Longrightarrow> unpack_two_ints xs = Inl ValueError"
proof (induction xs rule: unpack_two_ints.induct)
  case (4 a b c rest)
  then show ?case by (auto split: sum.splits dest: py_int_error)
qed simp_all

lemma py_int_empty: "py_int [] = Inl ValueError"
  by (simp add: py_int_def strip_def)

lemma unpack_two_ints_empty_first: "unpack_two_ints ([] # rest) = Inl ValueError"
  by (cases "([] # rest :: string list)" rule: unpack_two_ints.cases)
     (auto simp add: py_int_empty)

lemma bad_part_fails: "bad_part part \<Longrightarrow> parse_part part = Inl ValueError"
proof -
  assume b: "bad_part part"
  let ?p = "strip part"
  consider (lit) "CHR ''-'' \<notin> set ?p" "py_int ?p = Inl ValueError"
    | (many) "2 \<le> count_list ?p CHR ''-''"
    | (minus) "?p \<noteq> []" "hd ?p = CHR ''-''"
    using b by (auto simp add: bad_part_def Let_def)
  then show ?thesis
  proof cases
    case lit
    then show ?thesis by (simp add: parse_part_def)
  next
    case many
    then have m: "CHR ''-'' \<in> set ?p"
      using count_list_0_iff [of ?p "CHR ''-''"] by force
    have "3 \<le> length (split_on CHR ''-'' ?p)"
      using many by (simp add: length_split_on)
    then show ?thesis
      using m by (simp add: parse_part_def unpack_two_ints_many)
  next
    case minus
    then obtain r where r: "?p = CHR ''-'' # r" by (cases ?p) auto
    then show ?thesis
      by (simp add: parse_part_def unpack_two_ints_empty_first)
  qed
qed

lemma parse_pages_bad_part:
  "part \<in> set (split_on CHR '','' pages) \<Longrightarrow> bad_part part \<Longrightarrow> parse_pages pages = Inl ValueError"
  using parse_loop_bad [of part "split_on CHR '','' pages" ValueError "[]"]
  by (simp add: parse_pages_def bad_part_fails)

section \<open>Properties of the split route\<close>

text \<open>
  C4, as stated, fails: a split request for pages 2 and 9 of a five-page upload leaves
  the view function with the \<open>IndexError\<close> of \<open>split_pdf\<close> unhandled; nothing is
  flashed, there is no redirect, and no output file is written.
\<close>

theorem split_view_out_of_range_unhandled_example:
  "fst (split_view ex_cfg ''0a1b'' ''2c3d'' (split_request ex_upload ''2,9'') ex_empty_world)
     = Unhandled (IndexError ''Page index out of range'')
   \<and> flashes (snd (split_view ex_cfg ''0a1b'' ''2c3d'' (split_request ex_upload ''2,9'')
        ex_empty_world)) = []
   \<and> files (snd (split_view ex_cfg ''0a1b'' ''2c3d'' (split_request ex_upload ''2,9'')
        ex_empty_world)) ''converted/2c3d.pdf'' = None"
proof -
  have p: "parse_pages ''2,9'' = Inr [2, 9]"
    by code_simp
  have f: "filename ex_upload \<noteq> []" "body ex_upload = Pdf ex_src"
    by (simp_all add: ex_upload_def)
  have u: "join (UPLOAD_DIR ex_cfg) (random_filename ''0a1b'' (filename ex_upload)) = ''uploads/0a1b.pdf''"
    by code_simp
  have s: "split_loop ex_src [2, 9] [] = Inl (IndexError ''Page index out of range'')"
    by (simp add: ex_src_def add_page_def)
  show ?thesis
    using f by (simp add: split_view_post p u s split_pdf_def PdfReader_def write_file_def
        ex_empty_world_def del: split_loop.simps)
qed

text \<open>
  C4, amended. For every split request of a logged-in user whose upload is a readable
  PDF and whose pages field parses to a list with an out-of-range page number, the
  \<open>IndexError\<close> raised by \<open>split_pdf\<close> leaves the view function unhandled: the only
  effect on the world is the saved upload, no message is flashed and no redirect is
  issued.
\<close>

theorem split_view_out_of_range_unhandled:
  assumes "filename pdf \<noteq> []" and "body pdf = Pdf src"
    and "parse_pages pages = Inr page_list"
    and "\<exists>p \<in> set page_list. p < 1 \<or> int (length src) < p"
  shows "split_view cfg token1 token2 (split_request pdf pages) w
           = (Unhandled (IndexError ''Page index out of range''),
              write_file w (join (UPLOAD_DIR cfg) (random_filename token1 (filename pdf)))
                (Pdf src))"
proof -
  have ne: "pages \<noteq> []"
    using assms(3) parse_pages_empty by auto
  have "split_loop src page_list [] = Inl (IndexError ''Page index out of range'')"
    using assms(4) by (rule split_loop_out_of_range)
  then show ?thesis
    using assms(1-3)
    by (simp add: split_view_post [OF assms(1) ne] split_pdf_def PdfReader_def write_file_def)
qed

theorem split_view_out_of_range_unhandled_witness:
  "split_view ex_cfg ''0a1b'' ''2c3d'' (split_request ex_upload ''0-2'') ex_empty_world
     = (Unhandled (IndexError ''Page index out of range''),
        write_file ex_empty_world ''uploads/0a1b.pdf'' (Pdf ex_src))"
proof -
  have p: "parse_pages ''0-2'' = Inr [0, 1, 2]"
    by code_simp
  have f: "filename ex_upload \<noteq> []" "body ex_upload = Pdf ex_src"
    by (simp_all add: ex_upload_def)
  have u: "join (UPLOAD_DIR ex_cfg) (random_filename ''0a1b'' (filename ex_upload)) = ''uploads/0a1b.pdf''"
    by code_simp
  have o: "\<exists>p \<in> set [0, 1, 2 :: int]. p < 1 \<or> int (length ex_src) < p"
    by simp
  show ?thesis
    using split_view_out_of_range_unhandled [OF f p o, of ex_cfg "''0a1b''" "''2c3d''" ex_empty_world]
    by (simp add: u)
qed

text \<open>
  C5. For every pages string that is a comma-separated list of single numbers and
  inclusive ranges, the parse of the split route yields, in the order given, each single
  number itself and for each range \<open>a-b\<close> the numbers \<open>a, a+1, ..., b\<close>, and the route
  calls \<open>split_pdf\<close> on the saved upload with exactly that sequence.
\<close>

theorem split_view_expands_pages:
  assumes "toks \<noteq> []" and "list_all token_ok toks" and "filename pdf \<noteq> []"
  shows "parse_pages (pages_text toks) = Inr (concat (map token_pages toks))
       \<and> split_view cfg token1 token2 (split_request pdf (pages_text toks)) w =
           (case split_pdf
                   (write_file w (join (UPLOAD_DIR cfg) (random_filename token1 (filename pdf)))
                      (body pdf))
                   (join (UPLOAD_DIR cfg) (random_filename token1 (filename pdf)))
                   (concat (map token_pages toks))
                   (join (CONVERTED_DIR cfg) (random_filename token2 ''split.pdf'')) of
              (Inl e, w2) \<Rightarrow> (Unhandled e, w2)
            | (Inr u, w2) \<Rightarrow>
                (SendFile (join (CONVERTED_DIR cfg) (random_filename token2 ''split.pdf'')), w2))"
  using split_view_post [OF assms(3) pages_text_nonempty [OF assms(1,2)]]
    parse_pages_tokens [OF assms(1,2)]
  by simp

theorem split_view_expands_pages_witness:
  "pages_text [Range ''2'' ''4'', Single ''7''] = ''2-4,7''
   \<and> parse_pages ''2-4,7'' = Inr [2, 3, 4, 7]
   \<and> split_view ex_cfg ''0a1b'' ''2c3d'' (split_request ex_upload ''2-4,7'') ex_empty_world =
       (case split_pdf (write_file ex_empty_world ''uploads/0a1b.pdf'' (Pdf ex_src))
               ''uploads/0a1b.pdf'' [2, 3, 4, 7] ''converted/2c3d.pdf'' of
          (Inl e, w2) \<Rightarrow> (Unhandled e, w2)
        | (Inr u, w2) \<Rightarrow> (SendFile ''converted/2c3d.pdf'', w2))"
proof -
  have t: "pages_text [Range ''2'' ''4'', Single ''7''] = ''2-4,7''"
    by (simp add: pages_text_def)
  have ne: "[Range ''2'' ''4'', Single ''7''] \<noteq> []"
    by simp
  have ok: "list_all token_ok [Range ''2'' ''4'', Single ''7'']"
    by (simp add: is_number_def is_digit_def)
  have f: "filename ex_upload \<noteq> []"
    by (simp add: ex_upload_def)
  have u: "join (UPLOAD_DIR ex_cfg) (random_filename ''0a1b'' (filename ex_upload)) = ''uploads/0a1b.pdf''"
    "join (CONVERTED_DIR ex_cfg) (random_filename ''2c3d'' ''split.pdf'') = ''converted/2c3d.pdf''"
    by code_simp+
  have v: "concat (map token_pages [Range ''2'' ''4'', Single ''7'']) = [2, 3, 4, 7]"
    by code_simp
  have b: "body ex_upload = Pdf ex_src"
    by (simp add: ex_upload_def)
  show ?thesis
    using split_view_expands_pages [OF ne ok f, of ex_cfg "''0a1b''" "''2c3d''" ex_empty_world]
    by (simp only: t u v b)
qed

lemma descending_no_pages: "descending t \<Longrightarrow> token_pages t = []"
  by (cases t) simp_all

lemma concat_without_descending:
  "concat (map token_pages toks) = concat (map token_pages (filter (\<lambda>t. \<not> descending t) toks))"
  by (induction toks) (simp_all add: descending_no_pages)

lemma split_pdf_no_pages:
  "files w pdf_path = Some (Pdf src) \<Longrightarrow>
   split_pdf w pdf_path [] out_path = (Inr (), write_file w out_path (Pdf []))"
  by (simp add: split_pdf_def PdfReader_def)

text \<open>
  C9. A range token \<open>a-b\<close> with \<open>a\<close> greater than \<open>b\<close> contributes no page number:
  the parse of a pages string in the specification's format yields what the tokens other
  than descending ranges contribute. When every token is a descending range the page
  list is empty, and for a readable PDF upload the route then writes a zero-page output
  document and sends it, instead of failing.
\<close>

theorem split_view_descending_ranges:
  assumes "toks \<noteq> []" and "list_all token_ok toks"
    and "filename pdf \<noteq> []" and "body pdf = Pdf src"
  shows "parse_pages (pages_text toks)
           = Inr (concat (map token_pages (filter (\<lambda>t. \<not> descending t) toks)))
       \<and> ((\<forall>t \<in> set toks. descending t) \<longrightarrow>
            parse_pages (pages_text toks) = Inr []
            \<and> split_view cfg token1 token2 (split_request pdf (pages_text toks)) w
                = (SendFile (join (CONVERTED_DIR cfg) (random_filename token2 ''split.pdf'')),
                   write_file
                     (write_file w (join (UPLOAD_DIR cfg) (random_filename token1 (filename pdf)))
                        (Pdf src))
                     (join (CONVERTED_DIR cfg) (random_filename token2 ''split.pdf'')) (Pdf [])))"
proof -
  have p: "parse_pages (pages_text toks)
             = Inr (concat (map token_pages (filter (\<lambda>t. \<not> descending t) toks)))"
    using parse_pages_tokens [OF assms(1,2)] concat_without_descending [of toks] by simp
  have "parse_pages (pages_text toks) = Inr []
        \<and> split_view cfg token1 token2 (split_request pdf (pages_text toks)) w
            = (SendFile (join (CONVERTED_DIR cfg) (random_filename token2 ''split.pdf'')),
               write_file
                 (write_file w (join (UPLOAD_DIR cfg) (random_filename token1 (filename pdf)))
                    (Pdf src))
                 (join (CONVERTED_DIR cfg) (random_filename token2 ''split.pdf'')) (Pdf []))"
    if d: "\<forall>t \<in> set toks. descending t"
  proof -
    from d have "filter (\<lambda>t. \<not> descending t) toks = []"
      by (simp add: filter_empty_conv)
    with p have e: "parse_pages (pages_text toks) = Inr []" by simp
    have r: "files (write_file w (join (UPLOAD_DIR cfg) (random_filename token1 (filename pdf)))
                      (Pdf src))
               (join (UPLOAD_DIR cfg) (random_filename token1 (filename pdf))) = Some (Pdf src)"
      by (simp add: write_file_def)
    show ?thesis
      using e split_pdf_no_pages [OF r]
      by (simp add: split_view_post [OF assms(3) pages_text_nonempty [OF assms(1,2)]] assms(4))
  qed
  with p show ?thesis by blast
qed

theorem split_view_descending_ranges_witness:
  "pages_text [Range ''5'' ''3'', Range ''4'' ''1''] = ''5-3,4-1''
   \<and> parse_pages ''5-3,4-1'' = Inr []
   \<and> split_view ex_cfg ''0a1b'' ''2c3d'' (split_request ex_upload ''5-3,4-1'') ex_empty_world
       = (SendFile ''converted/2c3d.pdf'',
          write_file (write_file ex_empty_world ''uploads/0a1b.pdf'' (Pdf ex_src))
            ''converted/2c3d.pdf'' (Pdf []))"
proof -
  let ?toks = "[Range ''5'' ''3'', Range ''4'' ''1'']"
  have t: "pages_text ?toks = ''5-3,4-1''"
    by (simp add: pages_text_def)
  have ne: "?toks \<noteq> []"
    by simp
  have ok: "list_all token_ok ?toks"
    by (simp add: is_number_def is_digit_def)
  have d: "\<forall>t \<in> set ?toks. descending t"
    by (simp add: dec_val_def digit_val_def)
  have f: "filename ex_upload \<noteq> []" "body ex_upload = Pdf ex_src"
    by (simp_all add: ex_upload_def)
  have u: "join (UPLOAD_DIR ex_cfg) (random_filename ''0a1b'' (filename ex_upload)) = ''uploads/0a1b.pdf''"
    "join (CONVERTED_DIR ex_cfg) (random_filename ''2c3d'' ''split.pdf'') = ''converted/2c3d.pdf''"
    by code_simp+
  show ?thesis
    using split_view_descending_ranges [OF ne ok f, of ex_cfg "''0a1b''" "''2c3d''" ex_empty_world] d
    by (simp only: t u) simp
qed

text \<open>
  C10. The parse of the pages field is partial. Whenever some comma-separated part of a
  non-empty pages string is a part that \<open>int()\<close> rejects (an empty part between commas
  included), has two hyphens or more, or has a leading minus sign, the parse raises
  \<open>ValueError\<close>; the view function has no handler, so the error leaves it: \<open>split_pdf\<close>
  is not reached (the world holds the saved upload only), and no redirect with a message
  is issued.
\<close>

theorem split_view_parse_error_unhandled:
  assumes "part \<in> set (split_on CHR '','' pages)" and "bad_part part"
    and "filename pdf \<noteq> []" and "pages \<noteq> []"
  shows "parse_pages pages = Inl ValueError
       \<and> split_view cfg token1 token2 (split_request pdf pages) w
           = (Unhandled ValueError,
              write_file w (join (UPLOAD_DIR cfg) (random_filename token1 (filename pdf)))
                (body pdf))"
  using parse_pages_bad_part [OF assms(1,2)]
  by (simp add: split_view_post [OF assms(3,4)])

theorem split_view_parse_error_unhandled_witness:
  "split_view ex_cfg ''0a1b'' ''2c3d'' (split_request ex_upload ''1,abc'') ex_empty_world
     = (Unhandled ValueError, write_file ex_empty_world ''uploads/0a1b.pdf'' (Pdf ex_src))
   \<and> split_view ex_cfg ''0a1b'' ''2c3d'' (split_request ex_upload ''1,,2'') ex_empty_world
     = (Unhandled ValueError, write_file ex_empty_world ''uploads/0a1b.pdf'' (Pdf ex_src))
   \<and> split_view ex_cfg ''0a1b'' ''2c3d'' (split_request ex_upload ''1-2-3'') ex_empty_world
     = (Unhandled ValueError, write_file ex_empty_world ''uploads/0a1b.pdf'' (Pdf ex_src))
   \<and> split_view ex_cfg ''0a1b'' ''2c3d'' (split_request ex_upload ''-5'') ex_empty_world
     = (Unhandled ValueError, write_file ex_empty_world ''uploads/0a1b.pdf'' (Pdf ex_src))"
proof -
  have f: "filename ex_upload \<noteq> []"
    by (simp add: ex_upload_def)
  have b: "body ex_upload = Pdf ex_src"
    by (simp add: ex_upload_def)
  have u: "join (UPLOAD_DIR ex_cfg) (random_filename ''0a1b'' (filename ex_upload)) = ''uploads/0a1b.pdf''"
    by code_simp
  have m: "''abc'' \<in> set (split_on CHR '','' ''1,abc'')" "[] \<in> set (split_on CHR '','' ''1,,2'')"
    "''1-2-3'' \<in> set (split_on CHR '','' ''1-2-3'')" "''-5'' \<in> set (split_on CHR '','' ''-5'')"
    by simp_all
  have bad: "bad_part ''abc''" "bad_part []" "bad_part ''1-2-3''" "bad_part ''-5''"
    by code_simp+
  have ne: "''1,abc'' \<noteq> []" "''1,,2'' \<noteq> []" "''1-2-3'' \<noteq> []" "''-5'' \<noteq> []"
    by simp_all
  show ?thesis
    using split_view_parse_error_unhandled [OF m(1) bad(1) f ne(1), of ex_cfg "''0a1b''" "''2c3d''" ex_empty_world]
      split_view_parse_error_unhandled [OF m(2) bad(2) f ne(2), of ex_cfg "''0a1b''" "''2c3d''" ex_empty_world]
      split_view_parse_error_unhandled [OF m(3) bad(3) f ne(3), of ex_cfg "''0a1b''" "''2c3d''" ex_empty_world]
      split_view_parse_error_unhandled [OF m(4) bad(4) f ne(4), of ex_cfg "''0a1b''" "''2c3d''" ex_empty_world]
    by (simp only: u b)
qed

end
